theory Spec2Isabelle
  imports Complex_Main "HOL-Library.Word"
begin

section \<open>JavaScript values\<close>

text \<open>
  The node (\<^verbatim>\<open>src/nodes/Aws/ECS/AwsEcs.node.ts\<close>) handles untyped JSON: the
  responses of \<^verbatim>\<open>awsApiRequest\<close> have TypeScript type \<^verbatim>\<open>any\<close>, and node
  parameters are cast without a run-time check. The values are therefore modelled as
  JavaScript has them.

  A JavaScript string is a sequence of UTF-16 code units. \<open>lit\<close> embeds an ASCII literal
  of the source.
\<close>

type_synonym js_string = "16 word list"

definition lit :: "string \<Rightarrow> js_string" where
  "lit s = map of_char s"

text \<open>
  A JavaScript number. The source does no arithmetic on numbers: it compares one with
  \<open>0\<close> and tests truthiness, and both depend only on the case distinction below.
\<close>

datatype number = NaN | PosInfinity | NegInfinity | Finite rat

datatype jsval =
    JUndefined
  | JNull
  | JBool bool
  | JNum number
  | JStr js_string
  | JArr "jsval list"
  | JObj "(js_string \<times> jsval) list"

text \<open>\<^verbatim>\<open>if (v)\<close> and \<^verbatim>\<open>!v\<close>: the falsy values are \<^verbatim>\<open>undefined\<close>, \<^verbatim>\<open>null\<close>,
  \<^verbatim>\<open>false\<close>, \<^verbatim>\<open>0\<close>, \<^verbatim>\<open>NaN\<close> and the empty string.\<close>

fun truthy :: "jsval \<Rightarrow> bool" where
  "truthy JUndefined = False"
| "truthy JNull = False"
| "truthy (JBool b) = b"
| "truthy (JNum NaN) = False"
| "truthy (JNum (Finite q)) = (q \<noteq> 0)"
| "truthy (JNum PosInfinity) = True"
| "truthy (JNum NegInfinity) = True"
| "truthy (JStr s) = (s \<noteq> [])"
| "truthy (JArr xs) = True"
| "truthy (JObj kvs) = True"

text \<open>\<^verbatim>\<open>n > 0\<close> on a number: false for \<^verbatim>\<open>NaN\<close>.\<close>

fun gt_zero :: "number \<Rightarrow> bool" where
  "gt_zero NaN = False"
| "gt_zero PosInfinity = True"
| "gt_zero NegInfinity = False"
| "gt_zero (Finite q) = (q > 0)"

text \<open>
  An error is a value: \<open>TypeError\<close> is what the JavaScript engine throws on a property
  read of \<^verbatim>\<open>undefined\<close> or \<^verbatim>\<open>null\<close> and on a call of something that is not a
  function; \<open>Thrown v\<close> is a rejection of \<^verbatim>\<open>awsApiRequest\<close> with the value \<open>v\<close>.
\<close>

datatype error = TypeError | Thrown jsval

text \<open>
  The property read \<^verbatim>\<open>v.k\<close>, for the keys the source reads (\<^verbatim>\<open>clusterArns\<close>,
  \<^verbatim>\<open>serviceArns\<close>, \<^verbatim>\<open>nextToken\<close>; no prototype defines them): it throws on
  \<^verbatim>\<open>undefined\<close> and \<^verbatim>\<open>null\<close>, is the field's value on an object that has the key
  and \<^verbatim>\<open>undefined\<close> otherwise.
\<close>

fun get_prop :: "jsval \<Rightarrow> js_string \<Rightarrow> error + jsval" where
  "get_prop JUndefined k = Inl TypeError"
| "get_prop JNull k = Inl TypeError"
| "get_prop (JObj kvs) k = Inr (case map_of kvs k of None \<Rightarrow> JUndefined | Some v \<Rightarrow> v)"
| "get_prop v k = Inr JUndefined"

text \<open>The assignment \<^verbatim>\<open>obj.k = v\<close>: an existing key keeps its place, a new one is
  appended.\<close>

fun set_prop :: "js_string \<Rightarrow> jsval \<Rightarrow> (js_string \<times> jsval) list \<Rightarrow> (js_string \<times> jsval) list" where
  "set_prop k v [] = [(k, v)]"
| "set_prop k v ((k', v') # kvs) =
     (if k' = k then (k, v) # kvs else (k', v') # set_prop k v kvs)"

text \<open>The method call \<^verbatim>\<open>v.map(f)\<close> on a JSON value: only an array has \<^verbatim>\<open>map\<close>.\<close>

fun js_map :: "(jsval \<Rightarrow> 'a) \<Rightarrow> jsval \<Rightarrow> error + 'a list" where
  "js_map f (JArr xs) = Inr (map f xs)"
| "js_map f v = Inl TypeError"

section \<open>The AWS request helper\<close>

text \<open>
  \<^verbatim>\<open>awsApiRequest.call(this, service, method, path, body, headers)\<close> is imported
  from \<^verbatim>\<open>./GenericFunctions\<close> and is not part of the node. It is a parameter of the
  model: \<open>api n req\<close> is the outcome of the \<open>n\<close>-th call (counted from \<open>0\<close>) when it is
  given the request \<open>req\<close>, either a rejection \<open>Inl e\<close> or a response \<open>Inr v\<close>. Each
  operation returns, next to its result, the requests it has issued, in order; a call is
  awaited before the next statement runs, so request \<open>n + 1\<close> is built after response
  \<open>n\<close> has arrived.
\<close>

record request =
  req_service :: js_string
  req_method :: js_string
  req_path :: js_string
  req_body :: jsval
  req_headers :: "(js_string \<times> js_string) list"

type_synonym aws = "nat \<Rightarrow> request \<Rightarrow> error + jsval"

definition amz_headers :: "string \<Rightarrow> (js_string \<times> js_string) list" where
  "amz_headers target =
     [(lit ''Content-Type'', lit ''application/x-amz-json-1.1''),
      (lit ''X-Amz-Target'', lit (''AmazonEC2ContainerServiceV20141113.'' @ target))]"

definition ecs_post :: "jsval \<Rightarrow> (js_string \<times> js_string) list \<Rightarrow> request" where
  "ecs_post b h =
     \<lparr>req_service = lit ''ecs'', req_method = lit ''POST'', req_path = lit ''/'',
      req_body = b, req_headers = h\<rparr>"

section \<open>The load-options methods\<close>

record INodePropertyOptions =
  opt_name :: jsval
  opt_value :: jsval

definition mk_option :: "jsval \<Rightarrow> INodePropertyOptions" where
  "mk_option arn = \<lparr>opt_name = arn, opt_value = arn\<rparr>"

text \<open>The node parameters that \<^verbatim>\<open>this.getNodeParameter(name, 0)\<close> returns. The
  fields the source casts and then uses as a string or a number have that type; the others
  are any value.\<close>

record node_parameters =
  operation :: js_string
  clusterName :: jsval
  serviceName :: jsval
  serviceNames :: js_string
  desiredCount :: number

definition getClusters :: "aws \<Rightarrow> (error + INodePropertyOptions list) \<times> request list" where
  "getClusters api =
     (let req = ecs_post (JObj []) (amz_headers ''ListClusters'') in
      case api 0 req of
        Inl e \<Rightarrow> (Inl e, [req])
      | Inr responseData \<Rightarrow>
          (case get_prop responseData (lit ''clusterArns'') of
             Inl e \<Rightarrow> (Inl e, [req])
           | Inr clusterArns \<Rightarrow> (js_map mk_option clusterArns, [req])))"

text \<open>
  The \<^verbatim>\<open>while (true)\<close> loop of \<^verbatim>\<open>getServices\<close>. It runs for as long as the
  responses carry a truthy \<^verbatim>\<open>nextToken\<close>, so it is a partial function: \<open>None\<close> is a
  loop that never ends. \<open>n\<close> is the number of calls issued so far and \<open>calls\<close> are their
  requests; \<open>body\<close> is the one body object that every iteration updates.
\<close>

partial_function (option) services_loop ::
  "aws \<Rightarrow> nat \<Rightarrow> (js_string \<times> jsval) list \<Rightarrow> jsval \<Rightarrow> INodePropertyOptions list \<Rightarrow>
   request list \<Rightarrow> ((error + INodePropertyOptions list) \<times> request list) option" where
  "services_loop api n body nextToken returnData calls =
     (let body' = set_prop (lit ''nextToken'') nextToken body;
          req = ecs_post (JObj body') (amz_headers ''ListServices'')
      in case api n req of
           Inl e \<Rightarrow> Some (Inl e, calls @ [req])
         | Inr additionalData \<Rightarrow>
             (case get_prop additionalData (lit ''serviceArns'') of
                Inl e \<Rightarrow> Some (Inl e, calls @ [req])
              | Inr serviceArns \<Rightarrow>
                  (case js_map mk_option serviceArns of
                     Inl e \<Rightarrow> Some (Inl e, calls @ [req])
                   | Inr opts \<Rightarrow>
                       (case get_prop additionalData (lit ''nextToken'') of
                          Inl e \<Rightarrow> Some (Inl e, calls @ [req])
                        | Inr nextToken' \<Rightarrow>
                            if \<not> truthy nextToken'
                            then Some (Inr (returnData @ opts), calls @ [req])
                            else services_loop api (Suc n) body' nextToken'
                                   (returnData @ opts) (calls @ [req])))))"

declare services_loop.simps [code]

definition getServices ::
  "aws \<Rightarrow> node_parameters \<Rightarrow> ((error + INodePropertyOptions list) \<times> request list) option" where
  "getServices api p =
     (if \<not> truthy (clusterName p) then Some (Inr [], [])
      else
        let body = [(lit ''cluster'', clusterName p), (lit ''maxResults'', JNum (Finite 50))];
            req = ecs_post (JObj body) (amz_headers ''ListServices'')
        in case api 0 req of
             Inl e \<Rightarrow> Some (Inl e, [req])
           | Inr responseData \<Rightarrow>
               (case get_prop responseData (lit ''serviceArns'') of
                  Inl e \<Rightarrow> Some (Inl e, [req])
                | Inr serviceArns \<Rightarrow>
                    if \<not> truthy serviceArns then Some (Inr [], [req])
                    else
                      (case js_map mk_option serviceArns of
                         Inl e \<Rightarrow> Some (Inl e, [req])
                       | Inr opts \<Rightarrow>
                           (case get_prop responseData (lit ''nextToken'') of
                              Inl e \<Rightarrow> Some (Inl e, [req])
                            | Inr nextToken \<Rightarrow>
                                if truthy nextToken
                                then services_loop api 1 body nextToken opts [req]
                                else Some (Inr opts, [req])))))"

section \<open>String operations of \<^verbatim>\<open>execute\<close>\<close>

text \<open>
  \<^verbatim>\<open>String.prototype.split(sep)\<close> for a separator of one code unit: the pieces
  between the occurrences of the separator, so at least one piece, and one more than
  there are separators.
\<close>

fun js_split :: "16 word \<Rightarrow> js_string \<Rightarrow> js_string list" where
  "js_split sep [] = [[]]"
| "js_split sep (c # cs) =
     (if c = sep then [] # js_split sep cs
      else case js_split sep cs of
             [] \<Rightarrow> [[c]]
           | piece # pieces \<Rightarrow> (c # piece) # pieces)"

definition comma :: "16 word" where
  "comma = 0x2C"

text \<open>
  \<^verbatim>\<open>String.prototype.trim()\<close> removes white space and line terminators from both
  ends. ECMAScript's list: TAB, LF, VT, FF, CR, SPACE, NO-BREAK SPACE, U+1680,
  U+2000 to U+200A, U+2028, U+2029, U+202F, U+205F, U+3000 and U+FEFF.
\<close>

definition is_white_space :: "16 word \<Rightarrow> bool" where
  "is_white_space c \<longleftrightarrow>
     c = 0x9 \<or> c = 0xA \<or> c = 0xB \<or> c = 0xC \<or> c = 0xD \<or> c = 0x20 \<or> c = 0xA0 \<or>
     c = 0x1680 \<or> (0x2000 \<le> c \<and> c \<le> 0x200A) \<or> c = 0x2028 \<or> c = 0x2029 \<or>
     c = 0x202F \<or> c = 0x205F \<or> c = 0x3000 \<or> c = 0xFEFF"

definition trim :: "js_string \<Rightarrow> js_string" where
  "trim s = rev (dropWhile is_white_space (rev (dropWhile is_white_space s)))"

section \<open>\<^verbatim>\<open>execute\<close>\<close>

text \<open>An output item; \<open>pairedItem\<close> is the \<^verbatim>\<open>item\<close> index of
  \<^verbatim>\<open>pairedItem: { item: 0 }\<close>.\<close>

record INodeExecutionData =
  json :: jsval
  pairedItem :: nat

text \<open>\<^verbatim>\<open>serviceNamesRaw.split(',').map((s) => s.trim()).filter((s) => s)\<close>\<close>

definition services_of :: "js_string \<Rightarrow> js_string list" where
  "services_of serviceNamesRaw =
     filter (\<lambda>s. s \<noteq> []) (map trim (js_split comma serviceNamesRaw))"

definition describe_body :: "node_parameters \<Rightarrow> jsval" where
  "describe_body p =
     JObj [(lit ''cluster'', clusterName p),
           (lit ''services'', JArr (map JStr (services_of (serviceNames p))))]"

definition update_body :: "node_parameters \<Rightarrow> jsval" where
  "update_body p =
     (let body = [(lit ''cluster'', clusterName p),
                  (lit ''service'', serviceName p),
                  (lit ''forceNewDeployment'', JBool True)]
      in JObj (if gt_zero (desiredCount p)
               then set_prop (lit ''desiredCount'') (JNum (desiredCount p)) body
               else body))"

text \<open>The tail both branches share: await the call, push the response if it is truthy.\<close>

definition relay ::
  "aws \<Rightarrow> request \<Rightarrow> (error + INodeExecutionData list list) \<times> request list" where
  "relay api req =
     (case api 0 req of
        Inl e \<Rightarrow> (Inl e, [req])
      | Inr responseData \<Rightarrow>
          (Inr [if truthy responseData
                then [\<lparr>json = responseData, pairedItem = 0\<rparr>] else []], [req]))"

definition execute ::
  "aws \<Rightarrow> node_parameters \<Rightarrow> (error + INodeExecutionData list list) \<times> request list" where
  "execute api p =
     (if operation p = lit ''describeServices''
      then relay api (ecs_post (describe_body p) (amz_headers ''DescribeServices''))
      else if operation p = lit ''forceNewDeployment''
      then relay api (ecs_post (update_body p) (amz_headers ''UpdateService''))
      else (Inr [[]], []))"

section \<open>Vocabulary of the statements\<close>

text \<open>The \<^verbatim>\<open>ListServices\<close> request of \<^verbatim>\<open>getServices\<close>, written out in
  full: the first one has no \<^verbatim>\<open>nextToken\<close>, a later one carries the token it is
  given.\<close>

definition list_services_request :: "jsval \<Rightarrow> jsval option \<Rightarrow> request" where
  "list_services_request cluster tok =
     \<lparr>req_service = lit ''ecs'', req_method = lit ''POST'', req_path = lit ''/'',
      req_body =
        JObj ([(lit ''cluster'', cluster), (lit ''maxResults'', JNum (Finite 50))] @
              (case tok of None \<Rightarrow> [] | Some t \<Rightarrow> [(lit ''nextToken'', t)])),
      req_headers =
        [(lit ''Content-Type'', lit ''application/x-amz-json-1.1''),
         (lit ''X-Amz-Target'', lit ''AmazonEC2ContainerServiceV20141113.ListServices'')]\<rparr>"

text \<open>What a response page holds: its \<^verbatim>\<open>nextToken\<close> (\<^verbatim>\<open>undefined\<close> when absent),
  whether its \<^verbatim>\<open>serviceArns\<close> is an array, and the elements of that array.\<close>

definition page_token :: "jsval \<Rightarrow> jsval" where
  "page_token pg = (case get_prop pg (lit ''nextToken'') of Inr t \<Rightarrow> t | Inl e \<Rightarrow> JUndefined)"

definition has_arns :: "jsval \<Rightarrow> bool" where
  "has_arns pg = (case get_prop pg (lit ''serviceArns'') of Inr (JArr xs) \<Rightarrow> True | _ \<Rightarrow> False)"

definition page_arns :: "jsval \<Rightarrow> jsval list" where
  "page_arns pg = (case get_prop pg (lit ''serviceArns'') of Inr (JArr xs) \<Rightarrow> xs | _ \<Rightarrow> [])"

text \<open>The request of call \<open>k\<close> when the earlier responses were \<open>pages 0\<close>, ...,
  \<open>pages (k - 1)\<close>: it carries the \<^verbatim>\<open>nextToken\<close> of the response before it.\<close>

definition nth_request :: "jsval \<Rightarrow> (nat \<Rightarrow> jsval) \<Rightarrow> nat \<Rightarrow> request" where
  "nth_request cluster pages k =
     list_services_request cluster
       (if k = 0 then None else Some (page_token (pages (k - 1))))"

text \<open>The first \<open>n\<close> calls answer with \<open>pages 0\<close>, ..., \<open>pages (n - 1)\<close>, each with an
  array of \<^verbatim>\<open>serviceArns\<close> and a truthy \<^verbatim>\<open>nextToken\<close>, so that another call follows.\<close>

definition pages_ok :: "aws \<Rightarrow> jsval \<Rightarrow> (nat \<Rightarrow> jsval) \<Rightarrow> nat \<Rightarrow> bool" where
  "pages_ok api cluster pages n \<longleftrightarrow>
     (\<forall>k<n. api k (nth_request cluster pages k) = Inr (pages k) \<and>
            has_arns (pages k) \<and> truthy (page_token (pages k)))"

text \<open>The names of the fields of a request body, in order.\<close>

definition body_keys :: "request \<Rightarrow> js_string list" where
  "body_keys r = (case req_body r of JObj kvs \<Rightarrow> map fst kvs | _ \<Rightarrow> [])"

text \<open>\<^verbatim>\<open>Array.prototype.join(',')\<close> on strings, the inverse of splitting at commas.\<close>

fun join_comma :: "js_string list \<Rightarrow> js_string" where
  "join_comma [] = []"
| "join_comma [s] = s"
| "join_comma (s # t # ts) = s @ comma # join_comma (t # ts)"

text \<open>The body object of \<^verbatim>\<open>getServices\<close> when its loop is about to issue call
  \<open>m + 1\<close>: it holds the token written for call \<open>m\<close>, if there was one.\<close>

definition loop_body :: "jsval \<Rightarrow> (nat \<Rightarrow> jsval) \<Rightarrow> nat \<Rightarrow> (js_string \<times> jsval) list" where
  "loop_body c pages m =
     [(lit ''cluster'', c), (lit ''maxResults'', JNum (Finite 50))] @
     (if m = 0 then [] else [(lit ''nextToken'', page_token (pages (m - 1)))])"

text \<open>The value of a field of a request body, if the body has the field.\<close>

definition body_field :: "request \<Rightarrow> js_string \<Rightarrow> jsval option" where
  "body_field r k = (case req_body r of JObj kvs \<Rightarrow> map_of kvs k | _ \<Rightarrow> None)"

subsection \<open>Examples\<close>

text \<open>A cluster with three pages of services, served by token.\<close>

definition ex_pages :: "nat \<Rightarrow> jsval" where
  "ex_pages k =
     (if k = 0 then
        JObj [(lit ''serviceArns'', JArr [JStr (lit ''arn:web'')]),
              (lit ''nextToken'', JStr (lit ''t1''))]
      else if k = 1 then
        JObj [(lit ''serviceArns'', JArr [JStr (lit ''arn:api''), JStr (lit ''arn:worker'')]),
              (lit ''nextToken'', JStr (lit ''t2''))]
      else JObj [(lit ''serviceArns'', JArr [])])"

definition ex_list_api :: aws where
  "ex_list_api k req =
     (case get_prop (req_body req) (lit ''nextToken'') of
        Inr JUndefined \<Rightarrow> Inr (ex_pages 0)
      | Inr (JStr t) \<Rightarrow>
          if t = lit ''t1'' then Inr (ex_pages 1)
          else if t = lit ''t2'' then Inr (ex_pages 2)
          else Inl (Thrown (JStr (lit ''InvalidParameterException'')))
      | _ \<Rightarrow> Inl (Thrown (JStr (lit ''InvalidParameterException''))))"

definition ex_params :: node_parameters where
  "ex_params =
     \<lparr>operation = lit ''describeServices'', clusterName = JStr (lit ''prod''),
      serviceName = JStr (lit ''web''), serviceNames = lit '' web, api ,,worker '',
      desiredCount = Finite 0\<rparr>"

text \<open>A helper that answers \<^verbatim>\<open>DescribeServices\<close> and \<^verbatim>\<open>UpdateService\<close>.\<close>

definition ex_exec_api :: aws where
  "ex_exec_api k req =
     (if map_of (req_headers req) (lit ''X-Amz-Target'') =
           Some (lit ''AmazonEC2ContainerServiceV20141113.DescribeServices'')
      then Inr (JObj [(lit ''services'', JArr []), (lit ''failures'', JArr [])])
      else Inr (JObj [(lit ''service'', JObj [(lit ''status'', JStr (lit ''ACTIVE''))])]))"

text \<open>Helpers that reject every call, that reject the second call, that answer the second
  call with an empty object, and that never run out of pages.\<close>

definition ex_fail_api :: aws where
  "ex_fail_api k req = Inl (Thrown (JStr (lit ''AccessDeniedException'')))"

definition ex_flaky_api :: aws where
  "ex_flaky_api k req =
     (if k = 0 then Inr (ex_pages 0) else Inl (Thrown (JStr (lit ''ThrottlingException''))))"

definition ex_bare_api :: aws where
  "ex_bare_api k req = (if k = 0 then Inr (ex_pages 0) else Inr (JObj []))"

definition ex_endless_api :: aws where
  "ex_endless_api k req =
     Inr (JObj [(lit ''serviceArns'', JArr [JStr (lit ''arn:web'')]),
                (lit ''nextToken'', JStr (lit ''again''))])"

text \<open>Two pages of clusters.\<close>

definition ex_cluster_api :: aws where
  "ex_cluster_api k req =
     (if k = 0 then
        Inr (JObj [(lit ''clusterArns'', JArr [JStr (lit ''arn:prod'')]),
                   (lit ''nextToken'', JStr (lit ''t1''))])
      else Inr (JObj [(lit ''clusterArns'', JArr [JStr (lit ''arn:staging'')])]))"

text \<open>Eleven service names.\<close>

definition ex_names :: "string list" where
  "ex_names = [''s01'', ''s02'', ''s03'', ''s04'', ''s05'', ''s06'', ''s07'', ''s08'', ''s09'',
               ''s10'', ''s11'']"

section \<open>Auxiliary facts\<close>

subsection \<open>Literals and objects\<close>

lemma of_char_lt: "(of_char c :: nat) < 256"
  by (metis of_char_mod_256 mod_less_divisor zero_less_numeral)

lemma of_char_word_eq: "(of_char c :: 16 word) = of_char d \<longleftrightarrow> c = d"
proof
  assume "(of_char c :: 16 word) = of_char d"
  then have "(of_nat (of_char c) :: 16 word) = of_nat (of_char d)"
    by (simp only: of_nat_of_char)
  then have "(of_char c :: nat) mod 2 ^ 16 = of_char d mod 2 ^ 16"
    by (simp add: word_of_nat_eq_iff take_bit_eq_mod)
  moreover have "(of_char c :: nat) < 2 ^ 16"
    by (rule less_trans [OF of_char_lt]) simp
  moreover have "(of_char d :: nat) < 2 ^ 16"
    by (rule less_trans [OF of_char_lt]) simp
  ultimately show "c = d" by simp
qed simp

lemma lit_eq_iff [simp]: "lit a = lit b \<longleftrightarrow> a = b"
  unfolding lit_def by (rule inj_map_eq_map) (simp add: inj_on_def of_char_word_eq)

lemma lit_Nil_iff [simp]: "lit s = [] \<longleftrightarrow> s = []"
  by (simp add: lit_def)

lemma set_prop_twice: "set_prop k v (set_prop k v' kvs) = set_prop k v kvs"
  by (induction kvs) auto

subsection \<open>Splitting, joining and trimming\<close>

lemma js_split_not_Nil: "js_split sep s \<noteq> []"
  by (induction s) (auto split: list.splits)

lemma join_comma_Cons_Cons: "join_comma ((c # x) # xs) = c # join_comma (x # xs)"
  by (cases xs) simp_all

lemma join_comma_Nil_Cons: "xs \<noteq> [] \<Longrightarrow> join_comma ([] # xs) = comma # join_comma xs"
  by (cases xs) simp_all

lemma join_js_split: "join_comma (js_split comma s) = s"
proof (induction s)
  case Nil
  show ?case by simp
next
  case (Cons c cs)
  show ?case
  proof (cases "c = comma")
    case True
    with Cons show ?thesis
      by (simp add: join_comma_Nil_Cons js_split_not_Nil)
  next
    case False
    obtain piece pieces where "js_split comma cs = piece # pieces"
      using js_split_not_Nil [of comma cs] by (cases "js_split comma cs") auto
    with False Cons show ?thesis
      by (simp add: join_comma_Cons_Cons)
  qed
qed

lemma js_split_pieces: "piece \<in> set (js_split sep s) \<Longrightarrow> sep \<notin> set piece"
  by (induction s arbitrary: piece) (auto split: if_splits list.splits)

lemma js_split_no_sep: "sep \<notin> set s \<Longrightarrow> js_split sep s = [s]"
  by (induction s) auto

lemma js_split_append_sep:
  "sep \<notin> set s \<Longrightarrow> js_split sep (s @ sep # rest) = s # js_split sep rest"
  by (induction s) auto

lemma js_split_join:
  "xs \<noteq> [] \<Longrightarrow> \<forall>x\<in>set xs. comma \<notin> set x \<Longrightarrow> js_split comma (join_comma xs) = xs"
  by (induction xs rule: join_comma.induct) (simp_all add: js_split_no_sep js_split_append_sep)

lemma trim_decomp:
  "\<exists>pre post. s = pre @ trim s @ post \<and> list_all is_white_space pre \<and> list_all is_white_space post"
proof -
  define u where "u = dropWhile is_white_space s"
  have "rev u = takeWhile is_white_space (rev u) @ dropWhile is_white_space (rev u)"
    by simp
  then have "u = rev (dropWhile is_white_space (rev u)) @ rev (takeWhile is_white_space (rev u))"
    by (metis rev_append rev_rev_ident)
  then have "s = takeWhile is_white_space s @ trim s @ rev (takeWhile is_white_space (rev u))"
    unfolding trim_def u_def by (metis takeWhile_dropWhile_id)
  moreover have "list_all is_white_space (takeWhile is_white_space s)"
    by (simp add: list_all_iff) (meson set_takeWhileD)
  moreover have "list_all is_white_space (rev (takeWhile is_white_space (rev u)))"
    by (simp add: list_all_iff) (meson set_takeWhileD)
  ultimately show ?thesis by blast
qed

lemma trim_ends:
  assumes "trim s \<noteq> []"
  shows "\<not> is_white_space (hd (trim s)) \<and> \<not> is_white_space (last (trim s))"
proof -
  define u where "u = dropWhile is_white_space s"
  define v where "v = dropWhile is_white_space (rev u)"
  have t: "trim s = rev v" by (simp add: trim_def u_def v_def)
  with assms have v: "v \<noteq> []" by simp
  then have "\<not> is_white_space (hd v)" unfolding v_def by (rule hd_dropWhile)
  then have l: "\<not> is_white_space (last (trim s))" using v by (simp add: t last_rev)
  from v have u: "u \<noteq> []" by (auto simp: v_def)
  have "last v = last (rev u)"
    using v unfolding v_def
    by (metis append_Nil2 last_appendR takeWhile_dropWhile_id)
  then have "hd (trim s) = hd u" using v u by (simp add: t hd_rev last_rev)
  moreover have "\<not> is_white_space (hd u)" using u unfolding u_def by (rule hd_dropWhile)
  ultimately show ?thesis using l by simp
qed

lemma trim_id:
  assumes "s \<noteq> []" "\<not> is_white_space (hd s)" "\<not> is_white_space (last s)"
  shows "trim s = s"
proof -
  have "dropWhile is_white_space s = s"
    using assms(1,2) by (cases s) simp_all
  moreover have "dropWhile is_white_space (rev s) = rev s"
    using assms(1,3) by (cases "rev s") (simp_all add: last_rev [symmetric] hd_rev)
  ultimately show ?thesis by (simp add: trim_def)
qed

subsection \<open>The loop of \<^verbatim>\<open>getServices\<close>\<close>

lemma has_arns_props:
  assumes "has_arns pg"
  shows "get_prop pg (lit ''serviceArns'') = Inr (JArr (page_arns pg))"
    and "get_prop pg (lit ''nextToken'') = Inr (page_token pg)"
  using assms
  by (cases pg; simp add: has_arns_def page_arns_def page_token_def split: option.splits jsval.splits)+

lemma pages_ok_0 [simp]: "pages_ok api c pages 0"
  by (simp add: pages_ok_def)

lemma pages_ok_Suc:
  "pages_ok api c pages (Suc n) \<longleftrightarrow>
     pages_ok api c pages n \<and> api n (nth_request c pages n) = Inr (pages n) \<and>
     has_arns (pages n) \<and> truthy (page_token (pages n))"
  by (auto simp: pages_ok_def less_Suc_eq)

lemma services_loop_step:
  assumes "api n (ecs_post (JObj (set_prop (lit ''nextToken'') tok body)) (amz_headers ''ListServices'')) = Inr pg"
    and "has_arns pg" and "truthy (page_token pg)"
  shows "services_loop api n body tok acc calls =
         services_loop api (Suc n) (set_prop (lit ''nextToken'') tok body) (page_token pg)
           (acc @ map mk_option (page_arns pg))
           (calls @ [ecs_post (JObj (set_prop (lit ''nextToken'') tok body)) (amz_headers ''ListServices'')])"
  by (subst services_loop.simps) (simp add: assms has_arns_props[OF assms(2)] Let_def)

lemma set_prop_loop_body:
  "set_prop (lit ''nextToken'') (page_token (pages m)) (loop_body c pages m) = loop_body c pages (Suc m)"
  by (simp add: loop_body_def)

lemma post_loop_body:
  "ecs_post (JObj (loop_body c pages m)) (amz_headers ''ListServices'') = nth_request c pages m"
  by (simp add: loop_body_def nth_request_def list_services_request_def ecs_post_def
      amz_headers_def)

lemma services_loop_run:
  assumes "pages_ok api c pages (Suc m)"
  shows "services_loop api 1 (loop_body c pages 0) (page_token (pages 0)) acc [nth_request c pages 0] =
         services_loop api (Suc m) (loop_body c pages m) (page_token (pages m))
           (acc @ map mk_option (concat (map (\<lambda>k. page_arns (pages k)) [1..<Suc m])))
           (map (nth_request c pages) [0..<Suc m])"
  using assms
proof (induction m)
  case 0
  show ?case by simp
next
  case (Suc m)
  from Suc.prems have ok: "pages_ok api c pages (Suc m)"
    and call: "api (Suc m) (nth_request c pages (Suc m)) = Inr (pages (Suc m))"
    and arns: "has_arns (pages (Suc m))" and tok: "truthy (page_token (pages (Suc m)))"
    by (simp_all add: pages_ok_Suc)
  have step: "services_loop api (Suc m) (loop_body c pages m) (page_token (pages m)) acc' calls' =
      services_loop api (Suc (Suc m)) (loop_body c pages (Suc m)) (page_token (pages (Suc m)))
        (acc' @ map mk_option (page_arns (pages (Suc m))))
        (calls' @ [nth_request c pages (Suc m)])" for acc' calls'
    using services_loop_step [of api "Suc m" "page_token (pages m)" "loop_body c pages m" "pages (Suc m)" acc' calls']
      call arns tok
    by (simp add: set_prop_loop_body post_loop_body)
  show ?case
    by (simp only: Suc.IH [OF ok] step) simp
qed

lemma first_page:
  assumes "truthy (clusterName p)" and "pages_ok api (clusterName p) pages (Suc m)"
  shows "getServices api p =
         services_loop api (Suc m) (loop_body (clusterName p) pages m) (page_token (pages m))
           (map mk_option (concat (map (\<lambda>k. page_arns (pages k)) [0..<Suc m])))
           (map (nth_request (clusterName p) pages) [0..<Suc m])"
proof -
  from assms(2) have ok0: "pages_ok api (clusterName p) pages (Suc 0)"
    by (simp add: pages_ok_def)
  then have call: "api 0 (nth_request (clusterName p) pages 0) = Inr (pages 0)"
    and arns: "has_arns (pages 0)" and tok: "truthy (page_token (pages 0))"
    by (simp_all add: pages_ok_Suc)
  have req0: "ecs_post (JObj [(lit ''cluster'', clusterName p), (lit ''maxResults'', JNum (Finite 50))])
      (amz_headers ''ListServices'') = nth_request (clusterName p) pages 0"
    by (simp add: nth_request_def list_services_request_def ecs_post_def amz_headers_def)
  have "getServices api p =
      services_loop api 1 (loop_body (clusterName p) pages 0) (page_token (pages 0))
        (map mk_option (page_arns (pages 0))) [nth_request (clusterName p) pages 0]"
    unfolding getServices_def
    by (simp add: assms(1) Let_def req0 call has_arns_props[OF arns] tok loop_body_def)
  also have "\<dots> = services_loop api (Suc m) (loop_body (clusterName p) pages m) (page_token (pages m))
           (map mk_option (page_arns (pages 0)) @ map mk_option (concat (map (\<lambda>k. page_arns (pages k)) [1..<Suc m])))
           (map (nth_request (clusterName p) pages) [0..<Suc m])"
    by (rule services_loop_run [OF assms(2)])
  also have "map mk_option (page_arns (pages 0)) @ map mk_option (concat (map (\<lambda>k. page_arns (pages k)) [1..<Suc m]))
      = map mk_option (concat (map (\<lambda>k. page_arns (pages k)) [0..<Suc m]))"
    by (simp add: upt_conv_Cons del: upt_Suc)
  finally show ?thesis .
qed

lemma services_loop_return:
  assumes "api n (ecs_post (JObj (set_prop (lit ''nextToken'') tok body)) (amz_headers ''ListServices'')) = Inr pg"
    and "has_arns pg" and "\<not> truthy (page_token pg)"
  shows "services_loop api n body tok acc calls =
         Some (Inr (acc @ map mk_option (page_arns pg)),
               calls @ [ecs_post (JObj (set_prop (lit ''nextToken'') tok body)) (amz_headers ''ListServices'')])"
  by (subst services_loop.simps) (simp add: assms has_arns_props[OF assms(2)] Let_def)

lemma services_loop_raise:
  assumes "api n (ecs_post (JObj (set_prop (lit ''nextToken'') tok body)) (amz_headers ''ListServices'')) = Inl e"
  shows "services_loop api n body tok acc calls =
         Some (Inl e,
               calls @ [ecs_post (JObj (set_prop (lit ''nextToken'') tok body)) (amz_headers ''ListServices'')])"
  by (subst services_loop.simps) (simp add: assms Let_def)

lemma services_loop_no_arns:
  assumes "api n (ecs_post (JObj (set_prop (lit ''nextToken'') tok body)) (amz_headers ''ListServices'')) = Inr pg"
    and "get_prop pg (lit ''serviceArns'') = Inr JUndefined"
  shows "services_loop api n body tok acc calls =
         Some (Inl TypeError,
               calls @ [ecs_post (JObj (set_prop (lit ''nextToken'') tok body)) (amz_headers ''ListServices'')])"
  by (subst services_loop.simps) (simp add: assms Let_def)

lemma first_request:
  "ecs_post (JObj [(lit ''cluster'', c), (lit ''maxResults'', JNum (Finite 50))])
      (amz_headers ''ListServices'') = nth_request c pages 0"
  by (simp add: nth_request_def list_services_request_def ecs_post_def amz_headers_def)

lemma getServices_returns:
  assumes "truthy (clusterName p)"
    and "pages_ok api (clusterName p) pages n"
    and "api n (nth_request (clusterName p) pages n) = Inr (pages n)"
    and "has_arns (pages n)"
    and "\<not> truthy (page_token (pages n))"
  shows "getServices api p =
         Some (Inr (map mk_option (concat (map (\<lambda>k. page_arns (pages k)) [0..<Suc n]))),
               map (nth_request (clusterName p) pages) [0..<Suc n])"
proof (cases n)
  case 0
  with assms show ?thesis
    unfolding getServices_def
    by (simp add: Let_def first_request [of _ pages] has_arns_props)
next
  case (Suc m)
  have "getServices api p =
      services_loop api (Suc m) (loop_body (clusterName p) pages m) (page_token (pages m))
        (map mk_option (concat (map (\<lambda>k. page_arns (pages k)) [0..<Suc m])))
        (map (nth_request (clusterName p) pages) [0..<Suc m])"
    using assms(1,2) unfolding Suc by (rule first_page)
  also have "\<dots> = Some (Inr (map mk_option (concat (map (\<lambda>k. page_arns (pages k)) [0..<Suc m])) @
                          map mk_option (page_arns (pages (Suc m)))),
                     map (nth_request (clusterName p) pages) [0..<Suc m] @
                       [nth_request (clusterName p) pages (Suc m)])"
    using services_loop_return [of api "Suc m" "page_token (pages m)"
        "loop_body (clusterName p) pages m" "pages (Suc m)"] assms(3,4,5)
    unfolding Suc by (simp add: set_prop_loop_body post_loop_body)
  finally show ?thesis
    unfolding Suc by simp
qed

lemma getServices_raise:
  assumes "truthy (clusterName p)"
    and "pages_ok api (clusterName p) pages n"
    and "api n (nth_request (clusterName p) pages n) = Inl e"
  shows "getServices api p = Some (Inl e, map (nth_request (clusterName p) pages) [0..<Suc n])"
proof (cases n)
  case 0
  with assms show ?thesis
    unfolding getServices_def by (simp add: Let_def first_request [of _ pages])
next
  case (Suc m)
  show ?thesis
    using services_loop_raise [of api "Suc m" "page_token (pages m)"
        "loop_body (clusterName p) pages m" e] assms(3)
    unfolding Suc first_page [OF assms(1) assms(2) [unfolded Suc]]
    by (simp add: set_prop_loop_body post_loop_body)
qed

lemma getServices_no_arns:
  assumes "truthy (clusterName p)"
    and "pages_ok api (clusterName p) pages (Suc m)"
    and "api (Suc m) (nth_request (clusterName p) pages (Suc m)) = Inr pg"
    and "get_prop pg (lit ''serviceArns'') = Inr JUndefined"
  shows "getServices api p =
         Some (Inl TypeError, map (nth_request (clusterName p) pages) [0..<Suc (Suc m)])"
  using services_loop_no_arns [of api "Suc m" "page_token (pages m)"
      "loop_body (clusterName p) pages m" pg] assms(3,4)
  unfolding first_page [OF assms(1,2)]
  by (simp add: set_prop_loop_body post_loop_body)

lemma services_loop_endless:
  assumes "services_loop api n body tok acc calls = Some y"
  shows "\<not> (\<exists>c pages m. n = Suc m \<and> body = loop_body c pages m \<and> tok = page_token (pages m) \<and>
            (\<forall>k. pages_ok api c pages k))"
proof (induction rule: services_loop.raw_induct)
  case (1 loop api n body nextToken returnData calls y)
  show ?case
  proof
    assume "\<exists>c pages m. n = Suc m \<and> body = loop_body c pages m \<and>
        nextToken = page_token (pages m) \<and> (\<forall>k. pages_ok api c pages k)"
    then obtain c pages m where n: "n = Suc m" and body: "body = loop_body c pages m"
      and tok: "nextToken = page_token (pages m)" and ok: "\<forall>k. pages_ok api c pages k"
      by blast
    from ok have "pages_ok api c pages (Suc (Suc m))" by blast
    then have call: "api (Suc m) (nth_request c pages (Suc m)) = Inr (pages (Suc m))"
      and arns: "has_arns (pages (Suc m))" and more: "truthy (page_token (pages (Suc m)))"
      by (simp_all add: pages_ok_Suc)
    from 1(2) have step: "loop api (Suc (Suc m)) (loop_body c pages (Suc m))
        (page_token (pages (Suc m))) (returnData @ map mk_option (page_arns (pages (Suc m))))
        (calls @ [nth_request c pages (Suc m)]) = Some y"
      by (simp add: n body tok set_prop_loop_body post_loop_body call has_arns_props [OF arns] more)
    have "\<exists>c' pages' m'. Suc (Suc m) = Suc m' \<and> loop_body c pages (Suc m) = loop_body c' pages' m' \<and>
        page_token (pages (Suc m)) = page_token (pages' m') \<and> (\<forall>k. pages_ok api c' pages' k)"
      using ok by blast
    with 1(1) [OF step] show False by blast
  qed
qed (rule assms)

lemma getServices_endless:
  assumes "truthy (clusterName p)" and "\<forall>k. pages_ok api (clusterName p) pages k"
  shows "getServices api p = None"
proof (cases "getServices api p")
  case None
  then show ?thesis .
next
  case (Some y)
  from assms(2) have "pages_ok api (clusterName p) pages (Suc 0)" by blast
  from first_page [OF assms(1) this] Some
  have "services_loop api (Suc 0) (loop_body (clusterName p) pages 0) (page_token (pages 0))
      (map mk_option (concat (map (\<lambda>k. page_arns (pages k)) [0..<Suc 0])))
      (map (nth_request (clusterName p) pages) [0..<Suc 0]) = Some y"
    by simp
  from services_loop_endless [OF this] assms(2) show ?thesis by blast
qed

subsection \<open>\<^verbatim>\<open>execute\<close>\<close>

lemma relay_calls: "snd (relay api req) = [req]"
  by (simp add: relay_def split: sum.splits)

section \<open>The load-options methods: pagination\<close>

text \<open>
  Claim C1. Let the cluster name be truthy (a non-empty string). If the first \<open>n\<close> calls
  answer with pages that each hold an array of \<^verbatim>\<open>serviceArns\<close> and a truthy
  \<^verbatim>\<open>nextToken\<close>, and call \<open>n\<close> answers with a page that holds an array of
  \<^verbatim>\<open>serviceArns\<close> and no (or a falsy) \<^verbatim>\<open>nextToken\<close>, then \<^verbatim>\<open>getServices\<close>
  returns. Its result has one option per ARN of the pages \<open>0\<close> to \<open>n\<close>, in request order
  and, within a page, in the page's order: the option's \<^verbatim>\<open>name\<close> and its
  \<^verbatim>\<open>value\<close> are both that ARN. It has issued exactly \<open>n + 1\<close> requests, one after
  the other, the first without a token and request \<open>k + 1\<close> with the \<^verbatim>\<open>nextToken\<close>
  of response \<open>k\<close>; the loop has stopped at the first response without a token. If no page
  ever lacks the token, \<^verbatim>\<open>getServices\<close> does not return.
\<close>

theorem getServices_paginates:
  assumes "truthy (clusterName p)"
  shows "(pages_ok api (clusterName p) pages n \<and>
          api n (nth_request (clusterName p) pages n) = Inr (pages n) \<and>
          has_arns (pages n) \<and> \<not> truthy (page_token (pages n)) \<longrightarrow>
            getServices api p =
              Some (Inr (map (\<lambda>arn. \<lparr>opt_name = arn, opt_value = arn\<rparr>)
                           (concat (map (\<lambda>k. page_arns (pages k)) [0..<Suc n]))),
                    map (nth_request (clusterName p) pages) [0..<Suc n])) \<and>
         ((\<forall>k. pages_ok api (clusterName p) pages k) \<longrightarrow> getServices api p = None)"
proof -
  have "mk_option = (\<lambda>arn. \<lparr>opt_name = arn, opt_value = arn\<rparr>)"
    by (simp add: fun_eq_iff mk_option_def)
  then show ?thesis
    using assms getServices_returns [of p api pages n] getServices_endless [of p api pages]
    by auto
qed

theorem getServices_paginates_witness:
  "getServices ex_list_api ex_params =
     Some (Inr [\<lparr>opt_name = JStr (lit ''arn:web''), opt_value = JStr (lit ''arn:web'')\<rparr>,
                \<lparr>opt_name = JStr (lit ''arn:api''), opt_value = JStr (lit ''arn:api'')\<rparr>,
                \<lparr>opt_name = JStr (lit ''arn:worker''), opt_value = JStr (lit ''arn:worker'')\<rparr>],
           [list_services_request (JStr (lit ''prod'')) None,
            list_services_request (JStr (lit ''prod'')) (Some (JStr (lit ''t1''))),
            list_services_request (JStr (lit ''prod'')) (Some (JStr (lit ''t2'')))]) \<and>
   getServices ex_endless_api ex_params = None"
proof -
  have c: "truthy (clusterName ex_params)"
    by (simp add: ex_params_def)
  have ok: "pages_ok ex_list_api (clusterName ex_params) ex_pages 2 \<and>
      ex_list_api 2 (nth_request (clusterName ex_params) ex_pages 2) = Inr (ex_pages 2) \<and>
      has_arns (ex_pages 2) \<and> \<not> truthy (page_token (ex_pages 2))"
    by (simp add: pages_ok_Suc eval_nat_numeral nth_request_def
        list_services_request_def ecs_post_def ex_list_api_def ex_pages_def ex_params_def
        has_arns_def page_token_def)
  have endless: "\<forall>k. pages_ok ex_endless_api (clusterName ex_params)
      (\<lambda>k. JObj [(lit ''serviceArns'', JArr [JStr (lit ''arn:web'')]),
                 (lit ''nextToken'', JStr (lit ''again''))]) k"
    by (simp add: pages_ok_def ex_endless_api_def has_arns_def page_token_def)
  show ?thesis
    using getServices_paginates [OF c, of ex_list_api ex_pages 2] ok
      getServices_paginates [OF c, of ex_endless_api
        "\<lambda>k. JObj [(lit ''serviceArns'', JArr [JStr (lit ''arn:web'')]),
                   (lit ''nextToken'', JStr (lit ''again''))]"] endless
    by (simp add: eval_nat_numeral nth_request_def ex_pages_def page_arns_def page_token_def
        ex_params_def)
qed

text \<open>
  Claim C2 says that \<^verbatim>\<open>getClusters\<close> paginates as \<^verbatim>\<open>getServices\<close> does. It does
  not: it issues one \<^verbatim>\<open>ListClusters\<close> request and never reads \<^verbatim>\<open>nextToken\<close>. When
  the first response carries a token and a second page exists, the result holds the
  clusters of the first page only and the call log has one request.
\<close>

theorem getClusters_first_page_only:
  "getClusters ex_cluster_api =
     (Inr [mk_option (JStr (lit ''arn:prod''))],
      [ecs_post (JObj []) (amz_headers ''ListClusters'')])"
  by (simp add: getClusters_def ex_cluster_api_def)

section \<open>\<^verbatim>\<open>execute\<close>: dispatch and requests\<close>

text \<open>
  Claim C3. \<^verbatim>\<open>execute\<close> dispatches on two operation names. For
  \<^verbatim>\<open>describeServices\<close> it issues one request, whose \<^verbatim>\<open>X-Amz-Target\<close> header is
  \<^verbatim>\<open>AmazonEC2ContainerServiceV20141113.DescribeServices\<close> and whose body holds the
  cluster and the services; for \<^verbatim>\<open>forceNewDeployment\<close> it issues one request, whose
  \<^verbatim>\<open>X-Amz-Target\<close> header is \<^verbatim>\<open>AmazonEC2ContainerServiceV20141113.UpdateService\<close>
  and whose body holds the cluster, the service, \<^verbatim>\<open>forceNewDeployment: true\<close> and, for
  a positive count, \<^verbatim>\<open>desiredCount\<close>; for any other operation it issues no request
  and returns one empty output list.
\<close>

theorem execute_dispatch:
  "(operation p = lit ''describeServices'' \<longrightarrow>
      snd (execute api p) =
        [\<lparr>req_service = lit ''ecs'', req_method = lit ''POST'', req_path = lit ''/'',
          req_body =
            JObj [(lit ''cluster'', clusterName p),
                  (lit ''services'', JArr (map JStr (services_of (serviceNames p))))],
          req_headers =
            [(lit ''Content-Type'', lit ''application/x-amz-json-1.1''),
             (lit ''X-Amz-Target'',
              lit ''AmazonEC2ContainerServiceV20141113.DescribeServices'')]\<rparr>]) \<and>
   (operation p = lit ''forceNewDeployment'' \<longrightarrow>
      snd (execute api p) =
        [\<lparr>req_service = lit ''ecs'', req_method = lit ''POST'', req_path = lit ''/'',
          req_body =
            JObj ([(lit ''cluster'', clusterName p), (lit ''service'', serviceName p),
                   (lit ''forceNewDeployment'', JBool True)] @
                  (if gt_zero (desiredCount p)
                   then [(lit ''desiredCount'', JNum (desiredCount p))] else [])),
          req_headers =
            [(lit ''Content-Type'', lit ''application/x-amz-json-1.1''),
             (lit ''X-Amz-Target'',
              lit ''AmazonEC2ContainerServiceV20141113.UpdateService'')]\<rparr>]) \<and>
   (operation p \<noteq> lit ''describeServices'' \<and> operation p \<noteq> lit ''forceNewDeployment'' \<longrightarrow>
      execute api p = (Inr [[]], []))"
  by (simp add: execute_def relay_calls ecs_post_def amz_headers_def describe_body_def
      update_body_def)

theorem execute_dispatch_witness:
  "snd (execute ex_exec_api ex_params) =
     [\<lparr>req_service = lit ''ecs'', req_method = lit ''POST'', req_path = lit ''/'',
       req_body =
         JObj [(lit ''cluster'', JStr (lit ''prod'')),
               (lit ''services'',
                JArr [JStr (lit ''web''), JStr (lit ''api''), JStr (lit ''worker'')])],
       req_headers =
         [(lit ''Content-Type'', lit ''application/x-amz-json-1.1''),
          (lit ''X-Amz-Target'',
           lit ''AmazonEC2ContainerServiceV20141113.DescribeServices'')]\<rparr>] \<and>
   snd (execute ex_exec_api (ex_params\<lparr>operation := lit ''forceNewDeployment''\<rparr>)) =
     [\<lparr>req_service = lit ''ecs'', req_method = lit ''POST'', req_path = lit ''/'',
       req_body =
         JObj [(lit ''cluster'', JStr (lit ''prod'')), (lit ''service'', JStr (lit ''web'')),
               (lit ''forceNewDeployment'', JBool True)],
       req_headers =
         [(lit ''Content-Type'', lit ''application/x-amz-json-1.1''),
          (lit ''X-Amz-Target'',
           lit ''AmazonEC2ContainerServiceV20141113.UpdateService'')]\<rparr>] \<and>
   execute ex_exec_api (ex_params\<lparr>operation := lit ''listServices''\<rparr>) = (Inr [[]], [])"
  using execute_dispatch [of ex_params ex_exec_api]
    execute_dispatch [of "ex_params\<lparr>operation := lit ''forceNewDeployment''\<rparr>" ex_exec_api]
    execute_dispatch [of "ex_params\<lparr>operation := lit ''listServices''\<rparr>" ex_exec_api]
  apply (simp add: ex_params_def)
  apply (simp add: services_of_def lit_def comma_def trim_def is_white_space_def)
  done

text \<open>
  Claim C4. Every request of \<^verbatim>\<open>execute\<close> goes to the helper as a \<^verbatim>\<open>POST\<close> to
  \<^verbatim>\<open>/\<close> of service \<^verbatim>\<open>ecs\<close>; there is at most one; and its body has one of three
  shapes, named by their fields: \<^verbatim>\<open>{cluster, services}\<close>,
  \<^verbatim>\<open>{cluster, service, forceNewDeployment}\<close> and
  \<^verbatim>\<open>{cluster, service, forceNewDeployment, desiredCount}\<close>. Each of the three occurs.
\<close>

theorem execute_body_shapes:
  "(\<forall>r \<in> set (snd (execute api p)).
      req_service r = lit ''ecs'' \<and> req_method r = lit ''POST'' \<and> req_path r = lit ''/'' \<and>
      body_keys r \<in>
        {[lit ''cluster'', lit ''services''],
         [lit ''cluster'', lit ''service'', lit ''forceNewDeployment''],
         [lit ''cluster'', lit ''service'', lit ''forceNewDeployment'', lit ''desiredCount'']}) \<and>
   length (snd (execute api p)) \<le> 1 \<and>
   (\<exists>p'. map body_keys (snd (execute api p')) = [[lit ''cluster'', lit ''services'']]) \<and>
   (\<exists>p'. map body_keys (snd (execute api p')) =
      [[lit ''cluster'', lit ''service'', lit ''forceNewDeployment'']]) \<and>
   (\<exists>p'. map body_keys (snd (execute api p')) =
      [[lit ''cluster'', lit ''service'', lit ''forceNewDeployment'', lit ''desiredCount'']])"
proof (intro conjI)
  show "\<forall>r \<in> set (snd (execute api p)).
      req_service r = lit ''ecs'' \<and> req_method r = lit ''POST'' \<and> req_path r = lit ''/'' \<and>
      body_keys r \<in>
        {[lit ''cluster'', lit ''services''],
         [lit ''cluster'', lit ''service'', lit ''forceNewDeployment''],
         [lit ''cluster'', lit ''service'', lit ''forceNewDeployment'', lit ''desiredCount'']}"
    by (simp add: execute_def relay_calls ecs_post_def body_keys_def describe_body_def
        update_body_def Let_def)
  show "length (snd (execute api p)) \<le> 1"
    by (simp add: execute_def relay_calls)
  show "\<exists>p'. map body_keys (snd (execute api p')) = [[lit ''cluster'', lit ''services'']]"
    by (rule exI [of _ ex_params])
      (simp add: execute_def relay_calls ecs_post_def body_keys_def describe_body_def ex_params_def)
  show "\<exists>p'. map body_keys (snd (execute api p')) =
      [[lit ''cluster'', lit ''service'', lit ''forceNewDeployment'']]"
    by (rule exI [of _ "ex_params\<lparr>operation := lit ''forceNewDeployment''\<rparr>"])
      (simp add: execute_def relay_calls ecs_post_def body_keys_def update_body_def ex_params_def)
  show "\<exists>p'. map body_keys (snd (execute api p')) =
      [[lit ''cluster'', lit ''service'', lit ''forceNewDeployment'', lit ''desiredCount'']]"
    by (rule exI [of _ "ex_params\<lparr>operation := lit ''forceNewDeployment'', desiredCount := Finite 3\<rparr>"])
      (simp add: execute_def relay_calls ecs_post_def body_keys_def update_body_def ex_params_def)
qed

theorem execute_body_shapes_witness:
  "map body_keys (snd (execute ex_exec_api
      (ex_params\<lparr>operation := lit ''forceNewDeployment'', desiredCount := Finite 3\<rparr>))) =
     [[lit ''cluster'', lit ''service'', lit ''forceNewDeployment'', lit ''desiredCount'']] \<and>
   map req_path (snd (execute ex_exec_api
      (ex_params\<lparr>operation := lit ''forceNewDeployment'', desiredCount := Finite 3\<rparr>))) =
     [lit ''/'']"
  using execute_body_shapes [of ex_exec_api
      "ex_params\<lparr>operation := lit ''forceNewDeployment'', desiredCount := Finite 3\<rparr>"]
  by (simp add: execute_def relay_calls ecs_post_def body_keys_def update_body_def ex_params_def)

section \<open>Errors and responses\<close>

text \<open>
  Claim C5. A rejection of \<^verbatim>\<open>awsApiRequest\<close> leaves each of the three functions
  unchanged, and the rejected call is the last one: \<^verbatim>\<open>execute\<close> and
  \<^verbatim>\<open>getClusters\<close> end with the error of their one call, and \<^verbatim>\<open>getServices\<close> ends
  with the error of call \<open>n\<close>, whether that is the first call or a call of the loop
  reached through \<open>n\<close> pages. No result is produced next to the error.
\<close>

theorem errors_propagate:
  "(req \<in> set (snd (execute api p)) \<and> api 0 req = Inl e \<longrightarrow> execute api p = (Inl e, [req])) \<and>
   (api 0 (ecs_post (JObj []) (amz_headers ''ListClusters'')) = Inl e \<longrightarrow>
      getClusters api = (Inl e, [ecs_post (JObj []) (amz_headers ''ListClusters'')])) \<and>
   (truthy (clusterName p) \<and> pages_ok api (clusterName p) pages n \<and>
    api n (nth_request (clusterName p) pages n) = Inl e \<longrightarrow>
      getServices api p = Some (Inl e, map (nth_request (clusterName p) pages) [0..<Suc n]))"
proof (intro conjI impI)
  assume "req \<in> set (snd (execute api p)) \<and> api 0 req = Inl e"
  then show "execute api p = (Inl e, [req])"
    by (auto simp: execute_def relay_def split: if_splits sum.splits)
next
  assume "api 0 (ecs_post (JObj []) (amz_headers ''ListClusters'')) = Inl e"
  then show "getClusters api = (Inl e, [ecs_post (JObj []) (amz_headers ''ListClusters'')])"
    by (simp add: getClusters_def)
next
  assume "truthy (clusterName p) \<and> pages_ok api (clusterName p) pages n \<and>
    api n (nth_request (clusterName p) pages n) = Inl e"
  then show "getServices api p =
      Some (Inl e, map (nth_request (clusterName p) pages) [0..<Suc n])"
    by (elim conjE) (rule getServices_raise)
qed

theorem errors_propagate_witness:
  "execute ex_fail_api ex_params =
     (Inl (Thrown (JStr (lit ''AccessDeniedException''))),
      [ecs_post (describe_body ex_params) (amz_headers ''DescribeServices'')]) \<and>
   getClusters ex_fail_api =
     (Inl (Thrown (JStr (lit ''AccessDeniedException''))),
      [ecs_post (JObj []) (amz_headers ''ListClusters'')]) \<and>
   getServices ex_flaky_api ex_params =
     Some (Inl (Thrown (JStr (lit ''ThrottlingException''))),
           [list_services_request (JStr (lit ''prod'')) None,
            list_services_request (JStr (lit ''prod'')) (Some (JStr (lit ''t1'')))])"
proof -
  let ?e = "Thrown (JStr (lit ''AccessDeniedException''))"
  let ?d = "ecs_post (describe_body ex_params) (amz_headers ''DescribeServices'')"
  have d: "?d \<in> set (snd (execute ex_fail_api ex_params)) \<and> ex_fail_api 0 ?d = Inl ?e"
    by (simp add: execute_def relay_calls ex_params_def ex_fail_api_def)
  have c: "ex_fail_api 0 (ecs_post (JObj []) (amz_headers ''ListClusters'')) = Inl ?e"
    by (simp add: ex_fail_api_def)
  have s: "truthy (clusterName ex_params) \<and> pages_ok ex_flaky_api (clusterName ex_params) ex_pages 1 \<and>
      ex_flaky_api 1 (nth_request (clusterName ex_params) ex_pages 1) =
        Inl (Thrown (JStr (lit ''ThrottlingException'')))"
    by (simp add: pages_ok_Suc nth_request_def ex_flaky_api_def ex_pages_def ex_params_def
        has_arns_def page_token_def)
  show ?thesis
    using errors_propagate [of ?d ex_fail_api ex_params ?e] d c
      errors_propagate [of ?d ex_flaky_api ex_params "Thrown (JStr (lit ''ThrottlingException''))"
        ex_pages 1] s
    by (simp add: eval_nat_numeral nth_request_def ex_pages_def page_token_def ex_params_def)
qed

text \<open>
  Claim C6. For both operations, when the helper answers the request of \<^verbatim>\<open>execute\<close>
  with a truthy value, the output is one list with one item, whose \<^verbatim>\<open>json\<close> is that
  value and whose \<^verbatim>\<open>pairedItem\<close> is item \<open>0\<close>.
\<close>

theorem execute_relays_response:
  assumes "operation p = lit ''describeServices'' \<or> operation p = lit ''forceNewDeployment''"
    and "req \<in> set (snd (execute api p))"
    and "api 0 req = Inr responseData"
    and "truthy responseData"
  shows "fst (execute api p) = Inr [[\<lparr>json = responseData, pairedItem = 0\<rparr>]]"
  using assms by (auto simp: execute_def relay_def split: if_splits sum.splits)

theorem execute_relays_response_witness:
  "fst (execute ex_exec_api ex_params) =
     Inr [[\<lparr>json = JObj [(lit ''services'', JArr []), (lit ''failures'', JArr [])],
            pairedItem = 0\<rparr>]] \<and>
   fst (execute ex_exec_api (ex_params\<lparr>operation := lit ''forceNewDeployment''\<rparr>)) =
     Inr [[\<lparr>json = JObj [(lit ''service'', JObj [(lit ''status'', JStr (lit ''ACTIVE''))])],
            pairedItem = 0\<rparr>]]"
proof -
  let ?d = "ecs_post (describe_body ex_params) (amz_headers ''DescribeServices'')"
  let ?q = "ex_params\<lparr>operation := lit ''forceNewDeployment''\<rparr>"
  let ?u = "ecs_post (update_body ?q) (amz_headers ''UpdateService'')"
  have d: "?d \<in> set (snd (execute ex_exec_api ex_params))"
    by (simp add: execute_def relay_calls ex_params_def)
  have u: "?u \<in> set (snd (execute ex_exec_api ?q))"
    by (simp add: execute_def relay_calls ex_params_def)
  have rd: "ex_exec_api 0 ?d = Inr (JObj [(lit ''services'', JArr []), (lit ''failures'', JArr [])])"
    by (simp add: ex_exec_api_def ecs_post_def amz_headers_def)
  have ru: "ex_exec_api 0 ?u =
      Inr (JObj [(lit ''service'', JObj [(lit ''status'', JStr (lit ''ACTIVE''))])])"
    by (simp add: ex_exec_api_def ecs_post_def amz_headers_def)
  show ?thesis
    using execute_relays_response [OF _ d rd] execute_relays_response [OF _ u ru]
    by (simp add: ex_params_def)
qed

section \<open>Request bodies\<close>

text \<open>
  Claim C8. For \<^verbatim>\<open>describeServices\<close>, the \<^verbatim>\<open>services\<close> array of the request body
  is obtained from the \<^verbatim>\<open>serviceNames\<close> string as follows. The string is cut at its
  commas into segments (joining the segments with commas gives the string back, and no
  segment holds a comma); each segment is trimmed (white space is removed at both ends and
  nowhere else, and what remains neither starts nor ends with white space); the empty
  results are dropped and the order is kept. So every element is non-empty. No bound on
  the number of services is enforced: any list of names, of any length, each non-empty,
  without a comma and without white space at its ends, passes unchanged when it is given
  joined by commas.
\<close>

theorem describe_services_list:
  assumes "operation p = lit ''describeServices''"
  shows "(\<exists>segs.
            join_comma segs = serviceNames p \<and> (\<forall>s\<in>set segs. comma \<notin> set s) \<and>
            (\<forall>s\<in>set segs. \<exists>pre post.
                s = pre @ trim s @ post \<and>
                list_all is_white_space pre \<and> list_all is_white_space post \<and>
                (trim s = [] \<or>
                 \<not> is_white_space (hd (trim s)) \<and> \<not> is_white_space (last (trim s)))) \<and>
            snd (execute api p) =
              [ecs_post
                 (JObj [(lit ''cluster'', clusterName p),
                        (lit ''services'',
                         JArr (map JStr (filter (\<lambda>s. s \<noteq> []) (map trim segs))))])
                 (amz_headers ''DescribeServices'')]) \<and>
         (\<forall>names.
            names \<noteq> [] \<and> serviceNames p = join_comma names \<and>
            (\<forall>s\<in>set names. s \<noteq> [] \<and> comma \<notin> set s \<and>
                \<not> is_white_space (hd s) \<and> \<not> is_white_space (last s)) \<longrightarrow>
            snd (execute api p) =
              [ecs_post
                 (JObj [(lit ''cluster'', clusterName p),
                        (lit ''services'', JArr (map JStr names))])
                 (amz_headers ''DescribeServices'')])"
proof (intro conjI allI impI)
  let ?segs = "js_split comma (serviceNames p)"
  have calls: "snd (execute api p) =
      [ecs_post (JObj [(lit ''cluster'', clusterName p),
                       (lit ''services'', JArr (map JStr (services_of (serviceNames p))))])
         (amz_headers ''DescribeServices'')]"
    using assms by (simp add: execute_def relay_calls describe_body_def)
  have "\<forall>s\<in>set ?segs. \<exists>pre post.
      s = pre @ trim s @ post \<and> list_all is_white_space pre \<and> list_all is_white_space post \<and>
      (trim s = [] \<or> \<not> is_white_space (hd (trim s)) \<and> \<not> is_white_space (last (trim s)))"
    using trim_decomp trim_ends by blast
  moreover have "\<forall>s\<in>set ?segs. comma \<notin> set s"
    using js_split_pieces by blast
  ultimately show "\<exists>segs.
      join_comma segs = serviceNames p \<and> (\<forall>s\<in>set segs. comma \<notin> set s) \<and>
      (\<forall>s\<in>set segs. \<exists>pre post.
          s = pre @ trim s @ post \<and>
          list_all is_white_space pre \<and> list_all is_white_space post \<and>
          (trim s = [] \<or>
           \<not> is_white_space (hd (trim s)) \<and> \<not> is_white_space (last (trim s)))) \<and>
      snd (execute api p) =
        [ecs_post
           (JObj [(lit ''cluster'', clusterName p),
                  (lit ''services'',
                   JArr (map JStr (filter (\<lambda>s. s \<noteq> []) (map trim segs))))])
           (amz_headers ''DescribeServices'')]"
    using calls join_js_split [of "serviceNames p"]
    by (intro exI [of _ ?segs]) (simp add: services_of_def)
next
  fix names
  assume a: "names \<noteq> [] \<and> serviceNames p = join_comma names \<and>
      (\<forall>s\<in>set names. s \<noteq> [] \<and> comma \<notin> set s \<and>
          \<not> is_white_space (hd s) \<and> \<not> is_white_space (last s))"
  then have "js_split comma (serviceNames p) = names"
    by (simp add: js_split_join)
  moreover have "map trim names = names"
    using a by (simp add: map_idI trim_id)
  moreover have "filter (\<lambda>s. s \<noteq> []) names = names"
    using a by (simp add: filter_id_conv)
  ultimately have "services_of (serviceNames p) = names"
    by (simp add: services_of_def)
  then show "snd (execute api p) =
      [ecs_post (JObj [(lit ''cluster'', clusterName p), (lit ''services'', JArr (map JStr names))])
         (amz_headers ''DescribeServices'')]"
    using assms by (simp add: execute_def relay_calls describe_body_def)
qed

theorem describe_services_list_witness:
  "snd (execute ex_exec_api (ex_params\<lparr>serviceNames := join_comma (map lit ex_names)\<rparr>)) =
     [ecs_post
        (JObj [(lit ''cluster'', JStr (lit ''prod'')),
               (lit ''services'', JArr (map JStr (map lit ex_names)))])
        (amz_headers ''DescribeServices'')] \<and>
   length (map lit ex_names) = 11"
proof -
  let ?p = "ex_params\<lparr>serviceNames := join_comma (map lit ex_names)\<rparr>"
  have op: "operation ?p = lit ''describeServices''"
    by (simp add: ex_params_def)
  have names: "map lit ex_names \<noteq> [] \<and> serviceNames ?p = join_comma (map lit ex_names) \<and>
      (\<forall>s\<in>set (map lit ex_names). s \<noteq> [] \<and> comma \<notin> set s \<and>
          \<not> is_white_space (hd s) \<and> \<not> is_white_space (last s))"
    by (simp add: ex_names_def lit_def comma_def is_white_space_def)
  from describe_services_list [OF op, of ex_exec_api] names
  have "snd (execute ex_exec_api ?p) =
      [ecs_post (JObj [(lit ''cluster'', clusterName ?p),
                       (lit ''services'', JArr (map JStr (map lit ex_names)))])
         (amz_headers ''DescribeServices'')]"
    by blast
  then show ?thesis by (simp add: ex_params_def ex_names_def)
qed

text \<open>
  Claim C9. For \<^verbatim>\<open>forceNewDeployment\<close>, the body of the one request has
  \<^verbatim>\<open>forceNewDeployment\<close> set to \<^verbatim>\<open>true\<close>, and it has the field
  \<^verbatim>\<open>desiredCount\<close>, with the parameter's value, exactly when that parameter is
  strictly greater than \<open>0\<close>. A desired count of \<open>0\<close> is left out like \<open>-1\<close>.
\<close>

theorem update_body_fields:
  assumes "operation p = lit ''forceNewDeployment''"
  shows "\<exists>r. snd (execute api p) = [r] \<and>
           body_field r (lit ''forceNewDeployment'') = Some (JBool True) \<and>
           body_field r (lit ''desiredCount'') =
             (if desiredCount p = PosInfinity \<or> (\<exists>q>0. desiredCount p = Finite q)
              then Some (JNum (desiredCount p)) else None)"
  using assms
  by (cases "desiredCount p") (simp_all add: execute_def relay_calls update_body_def body_field_def ecs_post_def)

theorem update_body_fields_witness:
  "\<exists>r. snd (execute ex_exec_api (ex_params\<lparr>operation := lit ''forceNewDeployment''\<rparr>)) = [r] \<and>
       body_field r (lit ''forceNewDeployment'') = Some (JBool True) \<and>
       body_field r (lit ''desiredCount'') = None"
  using update_body_fields [of "ex_params\<lparr>operation := lit ''forceNewDeployment''\<rparr>" ex_exec_api]
  by (simp add: ex_params_def)

section \<open>Guards of \<^verbatim>\<open>getServices\<close>\<close>

text \<open>
  Claim C10. \<^verbatim>\<open>getServices\<close> returns the empty list, without a call, when the
  cluster name is falsy (the empty string), and returns the empty list after its first call
  when the first response has no \<^verbatim>\<open>serviceArns\<close>. A later page has no such guard:
  when call \<open>n > 0\<close>, reached through \<open>n\<close> pages, answers with a page that has no
  \<^verbatim>\<open>serviceArns\<close>, \<^verbatim>\<open>getServices\<close> ends with a \<open>TypeError\<close>.
\<close>

theorem getServices_guards:
  "(\<not> truthy (clusterName p) \<longrightarrow> getServices api p = Some (Inr [], [])) \<and>
   (truthy (clusterName p) \<and>
    api 0 (list_services_request (clusterName p) None) = Inr pg \<and>
    get_prop pg (lit ''serviceArns'') = Inr JUndefined \<longrightarrow>
      getServices api p = Some (Inr [], [list_services_request (clusterName p) None])) \<and>
   (truthy (clusterName p) \<and> 0 < n \<and> pages_ok api (clusterName p) pages n \<and>
    api n (nth_request (clusterName p) pages n) = Inr pg \<and>
    get_prop pg (lit ''serviceArns'') = Inr JUndefined \<longrightarrow>
      getServices api p =
        Some (Inl TypeError, map (nth_request (clusterName p) pages) [0..<Suc n]))"
proof (intro conjI impI)
  assume "\<not> truthy (clusterName p)"
  then show "getServices api p = Some (Inr [], [])"
    by (simp add: getServices_def)
next
  assume "truthy (clusterName p) \<and>
    api 0 (list_services_request (clusterName p) None) = Inr pg \<and>
    get_prop pg (lit ''serviceArns'') = Inr JUndefined"
  then show "getServices api p = Some (Inr [], [list_services_request (clusterName p) None])"
    by (simp add: getServices_def list_services_request_def ecs_post_def amz_headers_def
        Let_def)
next
  assume a: "truthy (clusterName p) \<and> 0 < n \<and> pages_ok api (clusterName p) pages n \<and>
    api n (nth_request (clusterName p) pages n) = Inr pg \<and>
    get_prop pg (lit ''serviceArns'') = Inr JUndefined"
  then obtain m where "n = Suc m" by (cases n) auto
  with a show "getServices api p =
      Some (Inl TypeError, map (nth_request (clusterName p) pages) [0..<Suc n])"
    using getServices_no_arns [of p api pages m pg] by simp
qed

theorem getServices_guards_witness:
  "getServices ex_list_api (ex_params\<lparr>clusterName := JStr []\<rparr>) = Some (Inr [], []) \<and>
   getServices (\<lambda>k req. Inr (JObj [])) ex_params =
     Some (Inr [], [list_services_request (JStr (lit ''prod'')) None]) \<and>
   getServices ex_bare_api ex_params =
     Some (Inl TypeError,
           [list_services_request (JStr (lit ''prod'')) None,
            list_services_request (JStr (lit ''prod'')) (Some (JStr (lit ''t1'')))])"
proof -
  have s: "truthy (clusterName ex_params) \<and> 0 < (1::nat) \<and>
      pages_ok ex_bare_api (clusterName ex_params) ex_pages 1 \<and>
      ex_bare_api 1 (nth_request (clusterName ex_params) ex_pages 1) = Inr (JObj []) \<and>
      get_prop (JObj []) (lit ''serviceArns'') = Inr JUndefined"
    by (simp add: pages_ok_Suc nth_request_def ex_bare_api_def ex_pages_def ex_params_def
        has_arns_def page_token_def)
  show ?thesis
    using getServices_guards [of "ex_params\<lparr>clusterName := JStr []\<rparr>" ex_list_api]
      getServices_guards [of ex_params "\<lambda>k req. Inr (JObj [])" "JObj []"]
      getServices_guards [of ex_params ex_bare_api "JObj []" 1 ex_pages] s
    by (simp add: eval_nat_numeral nth_request_def ex_pages_def page_token_def ex_params_def)
qed

end
